theory Spec2Isabelle
  imports Main "HOL-Library.Char_ord" "HOL-Library.List_Lexorder"
begin

section \<open>Text and character classes\<close>

text \<open>
  A Python \<open>str\<close> is modelled as an Isabelle \<open>string\<close>.  The model covers ASCII text: the
  classes \<open>\\w\<close>, \<open>\\d\<close> and \<open>\\s\<close> of Python's \<open>re\<close> are given their ASCII members, and a
  character above 127 belongs to none of them.  Python compares strings by code point, which
  is the lexicographic order of \<open>HOL-Library.List_Lexorder\<close> over \<open>HOL-Library.Char_ord\<close>.
\<close>

definition in_range :: "char \<Rightarrow> char \<Rightarrow> char \<Rightarrow> bool" where
  "in_range lo hi c = ((of_char lo :: nat) \<le> of_char c \<and> (of_char c :: nat) \<le> of_char hi)"

definition is_digit :: "char \<Rightarrow> bool" where
  "is_digit c = in_range CHR ''0'' CHR ''9'' c"

definition is_lower :: "char \<Rightarrow> bool" where
  "is_lower c = in_range CHR ''a'' CHR ''z'' c"

definition is_upper :: "char \<Rightarrow> bool" where
  "is_upper c = in_range CHR ''A'' CHR ''Z'' c"

definition is_alpha :: "char \<Rightarrow> bool" where
  "is_alpha c = (is_lower c \<or> is_upper c)"

definition is_alnum :: "char \<Rightarrow> bool" where
  "is_alnum c = (is_alpha c \<or> is_digit c)"

definition is_word :: "char \<Rightarrow> bool" where
  "is_word c = (is_alnum c \<or> c = CHR ''_'')"

definition is_space :: "char \<Rightarrow> bool" where
  "is_space c = (in_range (char_of (9::nat)) (char_of (13::nat)) c
                 \<or> in_range (char_of (28::nat)) (char_of (32::nat)) c)"

definition lower_char :: "char \<Rightarrow> char" where
  "lower_char c = (if is_upper c then char_of (of_char c + (32::nat)) else c)"

definition lower :: "string \<Rightarrow> string" where
  "lower s = map lower_char s"

definition endswith :: "string \<Rightarrow> string \<Rightarrow> bool" where
  "endswith s suf = (length suf \<le> length s \<and> drop (length s - length suf) s = suf)"

section \<open>Backtracking regular expressions\<close>

text \<open>
  The patterns of \<open>preprocessing.py\<close> use single characters and classes, the word boundary
  \<open>\\b\<close>, concatenation and greedy repetition; none uses alternation or a capturing group.
  A position is the character before the cursor (if any) and the text from the cursor on.
\<close>

type_synonym pos = "char option \<times> string"

datatype rx =
    Chr "char \<Rightarrow> bool"
  | Bnd
  | Seq rx rx
  | Rep nat "nat option" rx

definition word_at :: "char option \<Rightarrow> bool" where
  "word_at c = (case c of None \<Rightarrow> False | Some x \<Rightarrow> is_word x)"

definition next_char :: "string \<Rightarrow> char option" where
  "next_char xs = (case xs of [] \<Rightarrow> None | x # _ \<Rightarrow> Some x)"

text \<open>
  \<open>rep f lo n q\<close>: greedy repetition of the matcher \<open>f\<close> from \<open>q\<close>, at least \<open>lo\<close> and at
  most \<open>n\<close> times.  The results are in the order a backtracking matcher tries them: one more
  iteration first, stopping here last.
\<close>

fun rep :: "(pos \<Rightarrow> pos list) \<Rightarrow> nat \<Rightarrow> nat \<Rightarrow> pos \<Rightarrow> pos list" where
  "rep f lo 0 q = (if lo = 0 then [q] else [])"
| "rep f lo (Suc n) q =
     concat (map (rep f (lo - 1) n) (f q)) @ (if lo = 0 then [q] else [])"

text \<open>
  \<open>rmatch r q\<close>: every position at which a match of \<open>r\<close> that starts at \<open>q\<close> can end, in
  backtracking order; the head of the list is the match Python reports.  An unbounded
  repetition is cut at \<open>lo\<close> plus the length of the remaining text, which loses nothing as
  long as each iteration consumes a character (it does in every pattern of the source).
\<close>

primrec rmatch :: "rx \<Rightarrow> pos \<Rightarrow> pos list" where
  "rmatch (Chr p) = (\<lambda>q. case snd q of [] \<Rightarrow> [] | x # xs \<Rightarrow> if p x then [(Some x, xs)] else [])"
| "rmatch Bnd = (\<lambda>q. if word_at (fst q) \<noteq> word_at (next_char (snd q)) then [q] else [])"
| "rmatch (Seq a b) = (\<lambda>q. concat (map (rmatch b) (rmatch a q)))"
| "rmatch (Rep lo hi r) =
     (\<lambda>q. rep (rmatch r) lo (case hi of None \<Rightarrow> lo + length (snd q) | Some h \<Rightarrow> h) q)"

text \<open>
  \<open>re.findall\<close>: scan from the left; a match is reported and the scan resumes at its end; a
  position without a match is skipped.  A match that consumes nothing is reported as the
  empty string and the scan moves one character on.
\<close>

function scan :: "rx \<Rightarrow> char option \<Rightarrow> string \<Rightarrow> string list" where
  "scan r c xs =
     (case rmatch r (c, xs) of
        [] \<Rightarrow> (case xs of [] \<Rightarrow> [] | x # xs' \<Rightarrow> scan r (Some x) xs')
      | q # _ \<Rightarrow>
          if length (snd q) < length xs
          then take (length xs - length (snd q)) xs # scan r (fst q) (snd q)
          else (case xs of [] \<Rightarrow> [[]] | x # xs' \<Rightarrow> [] # scan r (Some x) xs'))"
  by pat_completeness auto
termination
  by (relation "measure (\<lambda>(r, c, xs). length xs)") auto

declare scan.simps [simp del]

definition findall :: "rx \<Rightarrow> string \<Rightarrow> string list" where
  "findall r text = scan r None text"

subsection \<open>Pattern constructors\<close>

definition lit :: "char \<Rightarrow> rx" where
  "lit c = Chr (\<lambda>x. x = c)"

fun lits :: "string \<Rightarrow> rx" where
  "lits [] = Rep 0 (Some 0) Bnd"
| "lits [c] = lit c"
| "lits (c # cs) = Seq (lit c) (lits cs)"

definition rplus :: "rx \<Rightarrow> rx" where
  "rplus r = Rep 1 None r"

definition rstar :: "rx \<Rightarrow> rx" where
  "rstar r = Rep 0 None r"

definition ropt :: "rx \<Rightarrow> rx" where
  "ropt r = Rep 0 (Some 1) r"

fun seqs :: "rx list \<Rightarrow> rx" where
  "seqs [] = Rep 0 (Some 0) Bnd"
| "seqs [r] = r"
| "seqs (r # rs) = Seq r (seqs rs)"

section \<open>Indicator extraction\<close>

datatype exn = ValueError | OtherError string

subsection \<open>The patterns of \<open>extract_indicators_by_category\<close>\<close>

definition file_exts :: "string list" where
  "file_exts = [''pdf'', ''html'', ''htm'', ''jpg'', ''jpeg'', ''png'', ''gif'', ''bmp'',
                ''tiff'', ''mp4'', ''mov'', ''avi'', ''webp'']"

text \<open>\<^verbatim>\<open>[a-zA-Z0-9-]\<close>\<close>

definition label_char :: "char \<Rightarrow> bool" where
  "label_char c = (is_alnum c \<or> c = CHR ''-'')"

text \<open>\<^verbatim>\<open>\b(?:[a-zA-Z0-9-]+\.)+[a-zA-Z]{2,6}\b\<close>\<close>

definition domain_pattern :: rx where
  "domain_pattern =
     seqs [Bnd, rplus (Seq (rplus (Chr label_char)) (lit CHR ''.'')),
           Rep 2 (Some 6) (Chr is_alpha), Bnd]"

text \<open>\<^verbatim>\<open>https?://[^\s/$.?#].[^\s]*\<close>; the dot matches anything but a newline.\<close>

definition url_pattern :: rx where
  "url_pattern =
     seqs [lits ''http'', ropt (lit CHR ''s''), lits ''://'',
           Chr (\<lambda>c. \<not> is_space c \<and> c \<notin> set ''/$.?#''),
           Chr (\<lambda>c. c \<noteq> char_of (10::nat)),
           rstar (Chr (\<lambda>c. \<not> is_space c))]"

text \<open>\<^verbatim>\<open>\b(?:\d{1,3}\.){3}\d{1,3}\b\<close>\<close>

definition ip_pattern :: rx where
  "ip_pattern =
     seqs [Bnd, Rep 3 (Some 3) (Seq (Rep 1 (Some 3) (Chr is_digit)) (lit CHR ''.'')),
           Rep 1 (Some 3) (Chr is_digit), Bnd]"

text \<open>\<^verbatim>\<open>[a-zA-Z0-9._%+-]\<close> and \<^verbatim>\<open>[a-zA-Z0-9.-]\<close>\<close>

definition local_char :: "char \<Rightarrow> bool" where
  "local_char c = (is_alnum c \<or> c \<in> set ''._%+-'')"

definition host_char :: "char \<Rightarrow> bool" where
  "host_char c = (is_alnum c \<or> c \<in> set ''.-'')"

text \<open>\<^verbatim>\<open>[a-zA-Z0-9._%+-]+@[a-zA-Z0-9.-]+\.[a-zA-Z]{2,}\<close>\<close>

definition email_pattern :: rx where
  "email_pattern =
     seqs [rplus (Chr local_char), lit CHR ''@'', rplus (Chr host_char), lit CHR ''.'',
           Rep 2 None (Chr is_alpha)]"

text \<open>\<^verbatim>\<open>[\w\-]\<close>\<close>

definition handle_char :: "char \<Rightarrow> bool" where
  "handle_char c = (is_word c \<or> c = CHR ''-'')"

text \<open>\<^verbatim>\<open>@[\w\-]+\<close>\<close>

definition social_pattern :: rx where
  "social_pattern = Seq (lit CHR ''@'') (rplus (Chr handle_char))"

text \<open>\<^verbatim>\<open>\bUA-\d{4,}-\d+\b\<close> and \<^verbatim>\<open>\bPub-\d{5,}\b\<close>\<close>

definition ua_pattern :: rx where
  "ua_pattern =
     seqs [Bnd, lits ''UA-'', Rep 4 None (Chr is_digit), lit CHR ''-'', rplus (Chr is_digit), Bnd]"

definition pub_pattern :: rx where
  "pub_pattern = seqs [Bnd, lits ''Pub-'', Rep 5 None (Chr is_digit), Bnd]"

subsection \<open>\<open>ipaddress.ip_address\<close>\<close>

text \<open>\<open>str.split\<close> on one separator character.\<close>

fun split_on :: "char \<Rightarrow> string \<Rightarrow> string list" where
  "split_on d [] = [[]]"
| "split_on d (x # xs) =
     (if x = d then [] # split_on d xs
      else (case split_on d xs of [] \<Rightarrow> [[x]] | p # ps \<Rightarrow> (x # p) # ps))"

definition digit_val :: "char \<Rightarrow> nat" where
  "digit_val c = of_char c - of_char CHR ''0''"

definition int_of_digits :: "string \<Rightarrow> nat" where
  "int_of_digits s = foldl (\<lambda>n c. 10 * n + digit_val c) 0 s"

text \<open>
  The standard library's parser of one octet: not empty, ASCII decimal digits only, at most
  three of them, no leading zero unless the octet is \<open>0\<close> itself, and a value of at most 255.
\<close>

definition parse_octet :: "string \<Rightarrow> exn + nat" where
  "parse_octet s =
     (if s = [] then Inl ValueError
      else if \<not> list_all is_digit s then Inl ValueError
      else if length s > 3 then Inl ValueError
      else if s \<noteq> ''0'' \<and> hd s = CHR ''0'' then Inl ValueError
      else if int_of_digits s > 255 then Inl ValueError
      else Inr (int_of_digits s))"

text \<open>
  \<open>ip_address\<close> accepts what its IPv4 or its IPv6 parser accepts.  The IPv6 parser rejects
  every string without a colon, and a candidate of \<open>ip_pattern\<close> has none, so only the IPv4
  parser is modelled: four octets between dots.
\<close>

fun parse_octets :: "string list \<Rightarrow> exn + nat list" where
  "parse_octets [] = Inr []"
| "parse_octets (p # ps) =
     (case parse_octet p of
        Inl e \<Rightarrow> Inl e
      | Inr n \<Rightarrow> (case parse_octets ps of Inl e \<Rightarrow> Inl e | Inr ns \<Rightarrow> Inr (n # ns)))"

definition ip_address :: "string \<Rightarrow> exn + nat list" where
  "ip_address s =
     (let octets = split_on CHR ''.'' s in
      if length octets \<noteq> 4 then Inl ValueError else parse_octets octets)"

subsection \<open>\<open>IndicatorExtractor.extract_indicators_by_category\<close>\<close>

record indicators =
  domains :: "string list"
  urls :: "string list"
  ips :: "string list"
  emails :: "string list"
  phones :: "string list"
  social_handles :: "string list"
  tracking_ids :: "string list"

text \<open>\<open>sorted(v)\<close> for the set \<open>v\<close> of the elements of \<open>xs\<close>.\<close>

definition sorted_set :: "string list \<Rightarrow> string list" where
  "sorted_set xs = sort (remdups xs)"

definition regions :: "string list" where
  "regions = [''US'', ''NP'', ''FR'', ''DE'']"

text \<open>
  \<open>phonenumbers.PhoneNumberMatcher(text, region)\<close> is a library iterator; \<open>pm text region\<close>
  gives the numbers it yields, already in E.164 form, and the exception that ends the
  iteration early, if one does.  Either way the numbers yielded so far stay in the set.
\<close>

type_synonym phone_matcher = "string \<Rightarrow> string \<Rightarrow> string list \<times> exn option"

fun phones_of :: "phone_matcher \<Rightarrow> string \<Rightarrow> string list \<Rightarrow> string list" where
  "phones_of pm text [] = []"
| "phones_of pm text (region # rs) =
     (case pm text region of
        (found, None) \<Rightarrow> found @ phones_of pm text rs
      | (found, Some e) \<Rightarrow> found @ phones_of pm text rs)"

definition accepted_ips :: "string list \<Rightarrow> string list" where
  "accepted_ips ms = filter (\<lambda>m. case ip_address m of Inr _ \<Rightarrow> True | Inl _ \<Rightarrow> False) ms"

definition accepted_domains :: "string list \<Rightarrow> string list" where
  "accepted_domains ms =
     map lower (filter (\<lambda>m. \<not> list_ex (\<lambda>ext. endswith (lower m) (CHR ''.'' # ext)) file_exts) ms)"

definition extract_indicators_by_category :: "phone_matcher \<Rightarrow> string \<Rightarrow> indicators" where
  "extract_indicators_by_category pm text =
     \<lparr> domains = sorted_set (accepted_domains (findall domain_pattern text)),
       urls = sorted_set (findall url_pattern text),
       ips = sorted_set (accepted_ips (findall ip_pattern text)),
       emails = sorted_set (map lower (findall email_pattern text)),
       phones = sorted_set (phones_of pm text regions),
       social_handles = sorted_set (findall social_pattern text),
       tracking_ids = sorted_set (findall ua_pattern text @ findall pub_pattern text) \<rparr>"

subsection \<open>The end-to-end scenario text\<close>

definition scenario_text :: string where
  "scenario_text =
     ''Email: alerts@ti-example.com, IP 10.0.0.5, see https://bad-domain.test/payload.exe''"

text \<open>A phone library that finds no number in any region.\<close>

definition no_phones :: phone_matcher where
  "no_phones text region = ([], None)"

text \<open>
  A well-formed octet in words: one to three ASCII digits, written without a leading zero,
  with a value from 0 to 255.
\<close>

definition octet_ok :: "string \<Rightarrow> bool" where
  "octet_ok p = (p \<noteq> [] \<and> list_all is_digit p \<and> length p \<le> 3
                 \<and> (p = ''0'' \<or> hd p \<noteq> CHR ''0'') \<and> int_of_digits p \<le> 255)"

subsection \<open>The shape of an e-mail match\<close>

text \<open>
  What \<open>email_pattern\<close> can match: a local part, the at sign, a host part, a dot and a
  top-level label.  \<open>domain_part m\<close> is what follows the first at sign of \<open>m\<close>.
\<close>

definition email_shape :: "string \<Rightarrow> bool" where
  "email_shape m = (\<exists>l h t. m = l @ CHR ''@'' # h @ CHR ''.'' # t
           \<and> list_all local_char l \<and> l \<noteq> [] \<and> list_all host_char h \<and> h \<noteq> [])"

definition domain_part :: "string \<Rightarrow> string" where
  "domain_part m = tl (dropWhile (\<lambda>c. c \<noteq> CHR ''@'') m)"

section \<open>Configuration, stores and external services\<close>

text \<open>
  The settings of \<open>config.py\<close> that \<open>preprocessing.py\<close> reads.  \<open>config.py\<close> defines every one
  of them, so \<open>hasattr\<close> holds and \<open>getattr\<close> never falls back to its default.  A path is a
  string.
\<close>

record config =
  PDFS :: "string list"
  CHUNK_SIZE :: nat
  CHUNK_OVERLAP :: nat
  MAX_PAGES :: nat
  RAW_DIR :: string
  CLEAN_DIR :: string

text \<open>The rows of the tables \<open>pdf.documents\<close> and \<open>pdf.chunks\<close>; \<open>'v\<close> is the embedding vector.\<close>

record document_row =
  d_uuid :: string
  d_name :: string
  d_path :: string
  d_language :: string

record 'v chunk_row =
  c_uuid :: string
  c_document_uuid :: string
  c_text :: string
  c_embedding :: 'v
  c_indicators :: "string list"
  c_page :: nat
  c_language :: string

text \<open>The statements the repository sends to its cursor.\<close>

datatype 'v sql =
    SelectDocumentUuid string
  | InsertDocument document_row
  | InsertChunk "'v chunk_row"

text \<open>
  The Cypher statements with their parameters: the connection test, the document node
  (\<open>uuid\<close>, \<open>name\<close>, \<open>path\<close>, \<open>lang\<close>) and the indicator with its \<open>MENTIONED_IN\<close> edge
  (\<open>ind_uuid\<close>, \<open>val\<close>, \<open>cat\<close>, \<open>doc_uuid\<close>, \<open>page\<close>, \<open>rel_uuid\<close>).
\<close>

datatype cypher =
    ReturnOne
  | MergeDocument string string string string
  | is_MergeMention: MergeMention (ind_uuid_of: string) (val_of: string) (cat_of: string)
      (doc_uuid_of: string) (page_of: string) (rel_uuid_of: string)

text \<open>The \<open>_metadata\<close> entry of the indicators file, and what is written to a file.\<close>

record metadata =
  document_uuid :: string
  document_name :: string
  language :: string
  total_pages :: nat
  neo4j_success :: bool

datatype content =
    Text string
  | Json indicators metadata

datatype fs_op =
    Mkdir string
  | WriteFile string content

text \<open>Everything the program prints, one constructor for each \<open>print\<close> of the source.\<close>

datatype message =
    SpacyChunkingFailed exn
  | Neo4jConnectionSuccessful
  | Neo4jConnectionFailed exn
  | Neo4jInsertDocumentFailed exn
  | Neo4jInsertIndicatorsFailed exn
  | SavedCleanText string
  | SavedIndicators string
  | NoPdfsSpecified
  | is_ErrorProcessing: ErrorProcessing string exn
  | is_FileNotFound: FileNotFound string
  | is_ProcessingComplete: ProcessingComplete nat nat
  | Processing string
  | CreatedChunks nat string
  | Neo4jOperationsFailed string exn
  | is_Processed: Processed bool string nat nat
  | FailedToProcess string exn

text \<open>
  The state the program acts on: the two relational tables in insertion order, the statements
  the graph store has run, the files written, the lines printed, and how many random
  identities \<open>uuid.uuid4\<close> has handed out.
\<close>

record 'v world =
  pg_documents :: "document_row list"
  pg_chunks :: "'v chunk_row list"
  neo4j_graph :: "cypher list"
  fs_files :: "(string \<times> content) list"
  stdout :: "message list"
  uuid4_count :: nat

text \<open>
  The libraries and services the program calls.  Each one that can raise returns the
  exception as a value; a store says, from the current state and the operation, whether the
  operation raises.  \<open>uuid4_at\<close> is the stream of random identities, \<open>uuid5\<close> the name-based
  identity of RFC 4122 (a namespace and a name).
\<close>

record 'v env =
  pdf_pages :: "string \<Rightarrow> exn + string list"
  path_exists :: "string \<Rightarrow> bool"
  detect :: "string \<Rightarrow> exn + string"
  spacy_split :: "string \<Rightarrow> nat \<Rightarrow> nat \<Rightarrow> string \<Rightarrow> exn + string list"
  recursive_split :: "nat \<Rightarrow> nat \<Rightarrow> string list \<Rightarrow> string \<Rightarrow> exn + string list"
  phone_matcher :: phone_matcher
  generate_embedding :: "string \<Rightarrow> exn + 'v"
  execute_error :: "'v world \<Rightarrow> 'v sql \<Rightarrow> exn option"
  fs_error :: "'v world \<Rightarrow> fs_op \<Rightarrow> exn option"
  uuid4_at :: "nat \<Rightarrow> string"
  uuid5 :: "string \<Rightarrow> string \<Rightarrow> string"

text \<open>A Neo4j driver: whether opening a session raises, and whether running a statement does.\<close>

record 'v driver =
  session_error :: "'v world \<Rightarrow> exn option"
  run_error :: "'v world \<Rightarrow> cypher \<Rightarrow> exn option"

subsection \<open>Computations with state and exceptions\<close>

text \<open>
  A computation takes the state and returns the state it leaves behind together with either
  the exception it raised (\<open>Inl\<close>) or its result (\<open>Inr\<close>).  \<open>io_catch\<close> is \<open>try ... except
  Exception\<close>: the effects of the body before the exception stay.
\<close>

type_synonym ('a, 'v) io = "'v world \<Rightarrow> (exn + 'a) \<times> 'v world"

definition io_return :: "'a \<Rightarrow> ('a, 'v) io" where
  "io_return x w = (Inr x, w)"

definition io_raise :: "exn \<Rightarrow> ('a, 'v) io" where
  "io_raise e w = (Inl e, w)"

definition io_lift :: "exn + 'a \<Rightarrow> ('a, 'v) io" where
  "io_lift r w = (r, w)"

definition io_bind :: "('a, 'v) io \<Rightarrow> ('a \<Rightarrow> ('b, 'v) io) \<Rightarrow> ('b, 'v) io" where
  "io_bind m f w = (case m w of (Inl e, w') \<Rightarrow> (Inl e, w') | (Inr x, w') \<Rightarrow> f x w')"

definition io_catch :: "('a, 'v) io \<Rightarrow> (exn \<Rightarrow> ('a, 'v) io) \<Rightarrow> ('a, 'v) io" where
  "io_catch m h w = (case m w of (Inl e, w') \<Rightarrow> h e w' | (Inr x, w') \<Rightarrow> (Inr x, w'))"

definition print :: "message \<Rightarrow> (unit, 'v) io" where
  "print m w = (Inr (), w\<lparr>stdout := stdout w @ [m]\<rparr>)"

definition uuid4 :: "'v env \<Rightarrow> (string, 'v) io" where
  "uuid4 env w = (Inr (uuid4_at env (uuid4_count w)), w\<lparr>uuid4_count := Suc (uuid4_count w)\<rparr>)"

text \<open>\<open>uuid.NAMESPACE_DNS\<close>\<close>

definition NAMESPACE_DNS :: string where
  "NAMESPACE_DNS = ''6ba7b810-9dad-11d1-80b4-00c04fd430c8''"

text \<open>\<open>str(n)\<close> for a natural number.\<close>

fun show_nat :: "nat \<Rightarrow> string" where
  "show_nat n =
     (if n < 10 then [char_of (48 + n)] else show_nat (n div 10) @ [char_of (48 + n mod 10)])"

declare show_nat.simps [simp del]

section \<open>Text extraction and processing\<close>

subsection \<open>\<open>PDFExtractor.extract_text_from_pdf\<close>\<close>

text \<open>
  \<open>pdf_pages env pdf_path\<close> is the text of the pages of the file, or the exception that opening
  or reading it raises.  A page is the pair of its number and its text.
\<close>

definition extract_text_from_pdf :: "'v env \<Rightarrow> config \<Rightarrow> string \<Rightarrow> exn + (nat \<times> string) list" where
  "extract_text_from_pdf env cfg pdf_path =
     (case pdf_pages env pdf_path of
        Inl e \<Rightarrow> Inl e
      | Inr texts \<Rightarrow>
          Inr (takeWhile (\<lambda>(page_num, t). \<not> page_num > MAX_PAGES cfg) (enumerate 1 texts)))"

subsection \<open>\<open>TextProcessor\<close>\<close>

text \<open>
  \<open>squeeze\<close> is \<^verbatim>\<open>re.sub(r"\s+", " ", text)\<close>.  The characters \<open>clean_text\<close> replaces afterwards
  (curly quotes and the en dash) are outside the character range of the model.
\<close>

function squeeze :: "string \<Rightarrow> string" where
  "squeeze [] = []"
| "squeeze (x # xs) =
     (if is_space x then CHR '' '' # squeeze (dropWhile is_space xs) else x # squeeze xs)"
  by pat_completeness auto
termination
  by (relation "measure length") (auto simp: less_Suc_eq_le length_dropWhile_le)

definition strip :: "string \<Rightarrow> string" where
  "strip s = rev (dropWhile is_space (rev (dropWhile is_space s)))"

definition clean_text :: "string \<Rightarrow> string" where
  "clean_text text = strip (squeeze text)"

definition startswith :: "string \<Rightarrow> string \<Rightarrow> bool" where
  "startswith s p = (take (length p) s = p)"

definition detect_language :: "'v env \<Rightarrow> string \<Rightarrow> string" where
  "detect_language env text =
     (case detect env text of
        Inl e \<Rightarrow> ''en''
      | Inr lang \<Rightarrow>
          if startswith lang ''en'' then ''en''
          else if startswith lang ''fr'' then ''fr''
          else if startswith lang ''de'' then ''de''
          else ''en'')"

definition pipeline_map :: "string \<Rightarrow> string" where
  "pipeline_map lang =
     (if lang = ''en'' then ''en_core_web_sm''
      else if lang = ''fr'' then ''fr_core_news_sm''
      else if lang = ''de'' then ''de_core_news_sm''
      else ''en_core_web_sm'')"

text \<open>\<^verbatim>\<open>["\n\n", "\n", ". ", " ", ""]\<close>\<close>

definition separators :: "string list" where
  "separators = [[char_of (10::nat), char_of (10::nat)], [char_of (10::nat)], ''. '', '' '', '''']"

definition recursive_splitter :: "'v env \<Rightarrow> config \<Rightarrow> string \<Rightarrow> exn + string list" where
  "recursive_splitter env cfg text =
     recursive_split env (CHUNK_SIZE cfg) (CHUNK_OVERLAP cfg) separators text"

text \<open>The loop over the chunks of the primary splitter.\<close>

fun post_process :: "'v env \<Rightarrow> config \<Rightarrow> string list \<Rightarrow> exn + string list" where
  "post_process env cfg [] = Inr []"
| "post_process env cfg (chunk # chunks) =
     (if length chunk > CHUNK_SIZE cfg
      then (case recursive_splitter env cfg chunk of
              Inl e \<Rightarrow> Inl e
            | Inr sub_chunks \<Rightarrow>
                (case post_process env cfg chunks of
                   Inl e \<Rightarrow> Inl e
                 | Inr final_chunks \<Rightarrow> Inr (sub_chunks @ final_chunks)))
      else (case post_process env cfg chunks of
              Inl e \<Rightarrow> Inl e
            | Inr final_chunks \<Rightarrow> Inr (chunk # final_chunks)))"

text \<open>\<open>chunk_text\<close> returns what it printed and its result.\<close>

definition chunk_text ::
  "'v env \<Rightarrow> config \<Rightarrow> string \<Rightarrow> string \<Rightarrow> bool \<Rightarrow> message list \<times> (exn + string list)" where
  "chunk_text env cfg text lang use_spacy =
     (if use_spacy
      then (case (case spacy_split env (pipeline_map lang) (CHUNK_SIZE cfg) (CHUNK_OVERLAP cfg) text of
                    Inl e \<Rightarrow> Inl e
                  | Inr chunks \<Rightarrow> post_process env cfg chunks) of
              Inr final_chunks \<Rightarrow> ([], Inr final_chunks)
            | Inl e \<Rightarrow> ([SpacyChunkingFailed e], recursive_splitter env cfg text))
      else ([], recursive_splitter env cfg text))"

text \<open>
  What the post-processing is meant to produce: every chunk of the primary splitter stays
  where it is, and an oversized one is replaced by the chunks the recursive splitter makes
  of it.
\<close>

definition resplit_in_place :: "'v env \<Rightarrow> config \<Rightarrow> string list \<Rightarrow> string list" where
  "resplit_in_place env cfg chunks =
     concat (map (\<lambda>chunk. if length chunk > CHUNK_SIZE cfg
                            then (case recursive_splitter env cfg chunk of
                                    Inl e \<Rightarrow> [] | Inr sub_chunks \<Rightarrow> sub_chunks)
                            else [chunk]) chunks)"

section \<open>Persistence\<close>

subsection \<open>\<open>FileManager\<close>\<close>

definition fs :: "'v env \<Rightarrow> fs_op \<Rightarrow> (unit, 'v) io" where
  "fs env op w =
     (case fs_error env w op of
        Some e \<Rightarrow> (Inl e, w)
      | None \<Rightarrow>
          (case op of
             Mkdir d \<Rightarrow> (Inr (), w)
           | WriteFile p c \<Rightarrow> (Inr (), w\<lparr>fs_files := fs_files w @ [(p, c)]\<rparr>)))"

definition clean_file_of :: "config \<Rightarrow> string \<Rightarrow> string" where
  "clean_file_of cfg doc_name = CLEAN_DIR cfg @ ''/'' @ doc_name @ ''_clean.txt''"

definition raw_file_of :: "config \<Rightarrow> string \<Rightarrow> string" where
  "raw_file_of cfg doc_name = RAW_DIR cfg @ ''/'' @ doc_name @ ''_indicators.json''"

definition save_clean_and_json ::
  "'v env \<Rightarrow> config \<Rightarrow> string \<Rightarrow> string \<Rightarrow> indicators \<times> metadata \<Rightarrow> (unit, 'v) io" where
  "save_clean_and_json env cfg doc_name full_text indicators_dict =
     io_bind (fs env (Mkdir (RAW_DIR cfg))) (\<lambda>_.
     io_bind (fs env (Mkdir (CLEAN_DIR cfg))) (\<lambda>_.
     io_bind (fs env (WriteFile (clean_file_of cfg doc_name) (Text full_text))) (\<lambda>_.
     io_bind (fs env (WriteFile (raw_file_of cfg doc_name)
                        (Json (fst indicators_dict) (snd indicators_dict)))) (\<lambda>_.
     io_bind (print (SavedCleanText (clean_file_of cfg doc_name))) (\<lambda>_.
     print (SavedIndicators (raw_file_of cfg doc_name)))))))"

subsection \<open>\<open>PostgreSQLRepository\<close>\<close>

definition execute :: "'v env \<Rightarrow> 'v sql \<Rightarrow> (unit, 'v) io" where
  "execute env q w =
     (case execute_error env w q of
        Some e \<Rightarrow> (Inl e, w)
      | None \<Rightarrow>
          (case q of
             SelectDocumentUuid n \<Rightarrow> (Inr (), w)
           | InsertDocument r \<Rightarrow> (Inr (), w\<lparr>pg_documents := pg_documents w @ [r]\<rparr>)
           | InsertChunk r \<Rightarrow> (Inr (), w\<lparr>pg_chunks := pg_chunks w @ [r]\<rparr>)))"

text \<open>
  \<open>fetchone\<close> after \<^verbatim>\<open>SELECT uuid FROM pdf.documents WHERE name = %s\<close>: the identity of the
  first row with that name, in the order of the table.
\<close>

definition fetchone :: "string \<Rightarrow> (string option, 'v) io" where
  "fetchone name w = (Inr (map_option d_uuid (find (\<lambda>r. d_name r = name) (pg_documents w))), w)"

definition insert_document ::
  "'v env \<Rightarrow> string \<Rightarrow> string \<Rightarrow> string \<Rightarrow> string option \<Rightarrow> (string, 'v) io" where
  "insert_document env name path lang doc_uuid =
     io_bind (case doc_uuid of None \<Rightarrow> uuid4 env | Some u \<Rightarrow> io_return u) (\<lambda>doc_uuid.
     io_bind (execute env (SelectDocumentUuid name)) (\<lambda>_.
     io_bind (fetchone name) (\<lambda>res.
       case res of
         Some found \<Rightarrow> io_return found
       | None \<Rightarrow>
           io_bind (execute env (InsertDocument
                      \<lparr>d_uuid = doc_uuid, d_name = name, d_path = path, d_language = lang\<rparr>)) (\<lambda>_.
           io_return doc_uuid))))"

definition insert_chunk ::
  "'v env \<Rightarrow> string \<Rightarrow> string \<Rightarrow> string list \<Rightarrow> nat \<Rightarrow> string \<Rightarrow> string option \<Rightarrow> (string, 'v) io" where
  "insert_chunk env doc_uuid text inds page lang chunk_uuid =
     io_bind (case chunk_uuid of None \<Rightarrow> uuid4 env | Some u \<Rightarrow> io_return u) (\<lambda>chunk_uuid.
     io_bind (io_lift (generate_embedding env text)) (\<lambda>embedding.
     io_bind (execute env (InsertChunk
                \<lparr>c_uuid = chunk_uuid, c_document_uuid = doc_uuid, c_text = text,
                 c_embedding = embedding, c_indicators = inds, c_page = page,
                 c_language = lang\<rparr>)) (\<lambda>_.
     io_return chunk_uuid)))"

subsection \<open>\<open>Neo4jRepository\<close>\<close>

definition session :: "'v driver \<Rightarrow> (unit, 'v) io" where
  "session drv w = (case session_error drv w of Some e \<Rightarrow> (Inl e, w) | None \<Rightarrow> (Inr (), w))"

definition run :: "'v driver \<Rightarrow> cypher \<Rightarrow> (unit, 'v) io" where
  "run drv q w =
     (case run_error drv w q of
        Some e \<Rightarrow> (Inl e, w)
      | None \<Rightarrow> (Inr (), w\<lparr>neo4j_graph := neo4j_graph w @ [q]\<rparr>))"

text \<open>The constructor, which runs \<open>_test_connection\<close>.\<close>

definition Neo4jRepository :: "'v driver \<Rightarrow> (unit, 'v) io" where
  "Neo4jRepository drv =
     io_catch
       (io_bind (session drv) (\<lambda>_.
        io_bind (run drv ReturnOne) (\<lambda>_.
        print Neo4jConnectionSuccessful)))
       (\<lambda>e. io_bind (print (Neo4jConnectionFailed e)) (\<lambda>_. io_raise e))"

definition neo4j_insert_document ::
  "'v driver \<Rightarrow> string \<Rightarrow> string \<Rightarrow> string \<Rightarrow> string \<Rightarrow> (unit, 'v) io" where
  "neo4j_insert_document drv doc_uuid name path lang =
     io_catch
       (io_bind (session drv) (\<lambda>_. run drv (MergeDocument doc_uuid name path lang)))
       (\<lambda>e. io_bind (print (Neo4jInsertDocumentFailed e)) (\<lambda>_. io_raise e))"

text \<open>The items of the dictionary of indicators, in the order of its keys.\<close>

definition items :: "indicators \<Rightarrow> (string \<times> string list) list" where
  "items ind =
     [(''domains'', domains ind), (''urls'', urls ind), (''ips'', ips ind),
      (''emails'', emails ind), (''phones'', phones ind),
      (''social_handles'', social_handles ind), (''tracking_ids'', tracking_ids ind)]"

text \<open>The three nested loops of \<open>insert_indicators\<close>, innermost first.\<close>

fun insert_values ::
  "'v env \<Rightarrow> 'v driver \<Rightarrow> string \<Rightarrow> nat \<Rightarrow> string \<Rightarrow> string list \<Rightarrow> (unit, 'v) io" where
  "insert_values env drv doc_uuid page_num category [] = io_return ()"
| "insert_values env drv doc_uuid page_num category (value # values) =
     io_bind (uuid4 env) (\<lambda>rel_uuid.
     io_bind (run drv (MergeMention (uuid5 env NAMESPACE_DNS (category @ '':'' @ value))
                         value category doc_uuid (show_nat page_num) rel_uuid)) (\<lambda>_.
     insert_values env drv doc_uuid page_num category values))"

fun insert_categories ::
  "'v env \<Rightarrow> 'v driver \<Rightarrow> string \<Rightarrow> nat \<Rightarrow> (string \<times> string list) list \<Rightarrow> (unit, 'v) io" where
  "insert_categories env drv doc_uuid page_num [] = io_return ()"
| "insert_categories env drv doc_uuid page_num ((category, values) # rest) =
     io_bind (insert_values env drv doc_uuid page_num category values) (\<lambda>_.
     insert_categories env drv doc_uuid page_num rest)"

fun insert_pages ::
  "'v env \<Rightarrow> 'v driver \<Rightarrow> string \<Rightarrow> (nat \<times> indicators) list \<Rightarrow> (unit, 'v) io" where
  "insert_pages env drv doc_uuid [] = io_return ()"
| "insert_pages env drv doc_uuid ((page_num, page_indicators) # rest) =
     io_bind (insert_categories env drv doc_uuid page_num (items page_indicators)) (\<lambda>_.
     insert_pages env drv doc_uuid rest)"

definition insert_indicators ::
  "'v env \<Rightarrow> 'v driver \<Rightarrow> string \<Rightarrow> (nat \<times> indicators) list \<Rightarrow> (unit, 'v) io" where
  "insert_indicators env drv doc_uuid indicators_by_page =
     io_catch
       (io_bind (session drv) (\<lambda>_. insert_pages env drv doc_uuid indicators_by_page))
       (\<lambda>e. io_bind (print (Neo4jInsertIndicatorsFailed e)) (\<lambda>_. io_raise e))"

section \<open>The orchestrator\<close>

text \<open>\<open>Path.stem\<close>: the last component of the path without its last suffix.\<close>

definition path_name :: "string \<Rightarrow> string" where
  "path_name p = rev (takeWhile (\<lambda>c. c \<noteq> CHR ''/'') (rev p))"

definition stem :: "string \<Rightarrow> string" where
  "stem p =
     (let name = path_name p;
          ext = rev (takeWhile (\<lambda>c. c \<noteq> CHR ''.'') (rev name))
      in if CHR ''.'' \<in> set name \<and> ext \<noteq> [] \<and> length ext + 1 < length name
         then take (length name - length ext - 1) name
         else name)"

text \<open>\<open>sep.join(xs)\<close>\<close>

fun join :: "string \<Rightarrow> string list \<Rightarrow> string" where
  "join sep [] = []"
| "join sep [x] = x"
| "join sep (x # xs) = x @ sep @ join sep xs"

definition flat_indicators :: "indicators \<Rightarrow> string list" where
  "flat_indicators ind = concat (map snd (items ind))"

text \<open>The loop \<open>for i, chunk in enumerate(chunks, start=1)\<close>, from the index \<open>i\<close> on.\<close>

fun insert_chunks ::
  "'v env \<Rightarrow> string \<Rightarrow> string \<Rightarrow> nat \<Rightarrow> string list \<Rightarrow> (unit, 'v) io" where
  "insert_chunks env doc_uuid lang i [] = io_return ()"
| "insert_chunks env doc_uuid lang i (chunk # chunks) =
     io_bind (insert_chunk env doc_uuid chunk
                (flat_indicators (extract_indicators_by_category (phone_matcher env) chunk))
                i lang None) (\<lambda>_.
     insert_chunks env doc_uuid lang (Suc i) chunks)"

text \<open>
  \<open>process_pdf\<close> in its three parts.  The first goes from the extraction of the text to the
  last chunk row and returns the local variables the other two read: \<open>raw_pages\<close>,
  \<open>full_text\<close>, \<open>lang\<close>, \<open>doc_uuid\<close> and \<open>chunks\<close>.
\<close>

definition relational_operations ::
  "'v env \<Rightarrow> config \<Rightarrow> string \<Rightarrow>
   ((nat \<times> string) list \<times> string \<times> string \<times> string \<times> string list, 'v) io" where
  "relational_operations env cfg pdf_path =
     io_bind (io_lift (extract_text_from_pdf env cfg pdf_path)) (\<lambda>raw_pages.
     let full_text = join '' '' (map (\<lambda>p. clean_text (snd p)) raw_pages);
         lang = detect_language env full_text
     in
     io_bind (insert_document env (stem pdf_path) pdf_path lang None) (\<lambda>doc_uuid.
     io_bind (\<lambda>w. case chunk_text env cfg full_text lang True of
                     (printed, r) \<Rightarrow> (r, w\<lparr>stdout := stdout w @ printed\<rparr>)) (\<lambda>chunks.
     io_bind (print (CreatedChunks (length chunks) (stem pdf_path))) (\<lambda>_.
     io_bind (insert_chunks env doc_uuid lang 1 chunks) (\<lambda>_.
     io_return (raw_pages, full_text, lang, doc_uuid, chunks))))))"

text \<open>The body of the inner \<open>try\<close>.\<close>

definition neo4j_operations ::
  "'v env \<Rightarrow> 'v driver \<Rightarrow> string \<Rightarrow> string \<Rightarrow> string \<Rightarrow> string \<Rightarrow> (nat \<times> string) list \<Rightarrow>
   (unit, 'v) io" where
  "neo4j_operations env drv doc_uuid doc_name pdf_path lang raw_pages =
     io_bind (Neo4jRepository drv) (\<lambda>_.
     io_bind (neo4j_insert_document drv doc_uuid doc_name pdf_path lang) (\<lambda>_.
     insert_indicators env drv doc_uuid
       (map (\<lambda>p. (fst p, extract_indicators_by_category (phone_matcher env) (clean_text (snd p))))
          raw_pages)))"

text \<open>\<open>neo4j_success = True\<close> and the \<open>if neo4j_driver:\<close> after it; the result is \<open>neo4j_success\<close>.\<close>

definition graph_operations ::
  "'v env \<Rightarrow> 'v driver option \<Rightarrow> string \<Rightarrow> string \<Rightarrow> string \<Rightarrow> string \<Rightarrow> (nat \<times> string) list \<Rightarrow>
   (bool, 'v) io" where
  "graph_operations env neo4j_driver doc_uuid doc_name pdf_path lang raw_pages =
     (case neo4j_driver of
        None \<Rightarrow> io_return True
      | Some drv \<Rightarrow>
          io_catch
            (io_bind (neo4j_operations env drv doc_uuid doc_name pdf_path lang raw_pages) (\<lambda>_.
             io_return True))
            (\<lambda>neo4j_error.
               io_bind (print (Neo4jOperationsFailed doc_name neo4j_error)) (\<lambda>_.
               io_return False)))"

definition indicators_dict_of ::
  "'v env \<Rightarrow> string \<Rightarrow> string \<Rightarrow> string \<Rightarrow> string \<Rightarrow> nat \<Rightarrow> bool \<Rightarrow> indicators \<times> metadata" where
  "indicators_dict_of env full_text doc_uuid doc_name lang pages success =
     (extract_indicators_by_category (phone_matcher env) full_text,
      \<lparr>document_uuid = doc_uuid, document_name = doc_name, language = lang,
       total_pages = pages, neo4j_success = success\<rparr>)"

definition process_pdf :: "'v env \<Rightarrow> config \<Rightarrow> string \<Rightarrow> 'v driver option \<Rightarrow> (unit, 'v) io" where
  "process_pdf env cfg pdf_path neo4j_driver =
     io_bind (print (Processing (stem pdf_path))) (\<lambda>_.
     io_catch
       (io_bind (relational_operations env cfg pdf_path)
          (\<lambda>(raw_pages, full_text, lang, doc_uuid, chunks).
        io_bind (graph_operations env neo4j_driver doc_uuid (stem pdf_path) pdf_path lang raw_pages)
          (\<lambda>success.
        io_bind (save_clean_and_json env cfg (stem pdf_path) full_text
                   (indicators_dict_of env full_text doc_uuid (stem pdf_path) lang
                      (length raw_pages) success)) (\<lambda>_.
        print (Processed success (stem pdf_path) (length chunks) (length raw_pages))))))
       (\<lambda>e. io_bind (print (FailedToProcess (stem pdf_path) e)) (\<lambda>_. io_raise e)))"

text \<open>The loop of \<open>process_multiple_pdfs\<close>; its result is \<open>processed_count\<close>.\<close>

fun process_each ::
  "'v env \<Rightarrow> config \<Rightarrow> 'v driver option \<Rightarrow> nat \<Rightarrow> string list \<Rightarrow> (nat, 'v) io" where
  "process_each env cfg neo4j_driver processed_count [] = io_return processed_count"
| "process_each env cfg neo4j_driver processed_count (pdf_path # rest) =
     (if path_exists env pdf_path
      then io_bind
             (io_catch
                (io_bind (process_pdf env cfg pdf_path neo4j_driver) (\<lambda>_.
                 io_return (processed_count + 1)))
                (\<lambda>e. io_bind (print (ErrorProcessing pdf_path e)) (\<lambda>_.
                      io_return processed_count)))
             (\<lambda>n. process_each env cfg neo4j_driver n rest)
      else io_bind (print (FileNotFound pdf_path)) (\<lambda>_.
           process_each env cfg neo4j_driver processed_count rest))"

definition process_multiple_pdfs :: "'v env \<Rightarrow> config \<Rightarrow> 'v driver option \<Rightarrow> (unit, 'v) io" where
  "process_multiple_pdfs env cfg neo4j_driver =
     (if PDFS cfg = [] then print NoPdfsSpecified
      else io_bind (process_each env cfg neo4j_driver 0 (PDFS cfg)) (\<lambda>processed_count.
           print (ProcessingComplete processed_count (length (PDFS cfg)))))"

subsection \<open>How a computation changes one component of the state\<close>

text \<open>
  \<open>frame f m\<close>: the computation \<open>m\<close> leaves the component \<open>f\<close> of the state as it was.
  \<open>appends f P m\<close>: \<open>m\<close> only appends to the list \<open>f\<close>, and what it appends satisfies \<open>P\<close>.
\<close>

definition frame :: "('v world \<Rightarrow> 'c) \<Rightarrow> ('a, 'v) io \<Rightarrow> bool" where
  "frame f m = (\<forall>w. f (snd (m w)) = f w)"

definition appends :: "('v world \<Rightarrow> 'c list) \<Rightarrow> ('c \<Rightarrow> bool) \<Rightarrow> ('a, 'v) io \<Rightarrow> bool" where
  "appends f P m = (\<forall>w. \<exists>new. f (snd (m w)) = f w @ new \<and> list_all P new)"

subsection \<open>How the printed lines of a document count\<close>

text \<open>
  \<open>batch_line m\<close>: the line \<open>m\<close> is one that only the batch driver prints.
  \<open>tally m\<close>: the computation \<open>m\<close> prints no such line, and prints the line of a processed
  document once if it returns and not at all if it raises.
\<close>

definition batch_line :: "message \<Rightarrow> bool" where
  "batch_line m = (is_FileNotFound m \<or> is_ErrorProcessing m \<or> is_ProcessingComplete m)"

definition tally :: "('a, 'v) io \<Rightarrow> bool" where
  "tally m = (\<forall>w. \<exists>new. stdout (snd (m w)) = stdout w @ new
                 \<and> list_all (\<lambda>x. \<not> batch_line x) new
                 \<and> length (filter is_Processed new) = (if isl (fst (m w)) then 0 else 1))"

section \<open>A small environment for examples\<close>

text \<open>A splitter that cuts the text every \<open>n\<close> characters.\<close>

function chop :: "nat \<Rightarrow> string \<Rightarrow> string list" where
  "chop n xs = (if n = 0 \<or> xs = [] then [] else take n xs # chop n (drop n xs))"
  by pat_completeness auto
termination
  by (relation "measure (\<lambda>(n, xs). length xs)") auto

declare chop.simps [simp del]

text \<open>
  Three files: \<open>pdfs/a.pdf\<close> has one page, \<open>pdfs/b.pdf\<close> does not exist and \<open>pdfs/c.pdf\<close>
  cannot be read.  The primary splitter cuts at spaces, the recursive one every \<open>chunk_size\<close>
  characters; the stores accept every statement.
\<close>

definition example_env :: "nat env" where
  "example_env =
     \<lparr>pdf_pages = (\<lambda>p. if p = ''pdfs/c.pdf'' then Inl (OtherError ''cannot open'')
                       else Inr [''@ab @cd'']),
      path_exists = (\<lambda>p. p \<noteq> ''pdfs/b.pdf''),
      detect = (\<lambda>t. Inr ''en''),
      spacy_split = (\<lambda>pipeline chunk_size chunk_overlap t. Inr (split_on CHR '' '' t)),
      recursive_split = (\<lambda>chunk_size chunk_overlap seps t. Inr (chop chunk_size t)),
      phone_matcher = no_phones,
      generate_embedding = (\<lambda>t. Inr (length t)),
      execute_error = (\<lambda>w q. None),
      fs_error = (\<lambda>w op. None),
      uuid4_at = (\<lambda>n. ''uuid4-'' @ show_nat n),
      uuid5 = (\<lambda>namespace name. ''uuid5-'' @ name)\<rparr>"

definition example_config :: config where
  "example_config =
     \<lparr>PDFS = [''pdfs/a.pdf'', ''pdfs/b.pdf'', ''pdfs/c.pdf''],
      CHUNK_SIZE = 500, CHUNK_OVERLAP = 200, MAX_PAGES = 100,
      RAW_DIR = ''raw'', CLEAN_DIR = ''clean''\<rparr>"

definition empty_world :: "nat world" where
  "empty_world =
     \<lparr>pg_documents = [], pg_chunks = [], neo4j_graph = [], fs_files = [], stdout = [],
      uuid4_count = 0\<rparr>"

text \<open>A driver that runs every statement, and one that refuses to write a document node.\<close>

definition reliable_driver :: "nat driver" where
  "reliable_driver = \<lparr>session_error = (\<lambda>w. None), run_error = (\<lambda>w q. None)\<rparr>"

definition failing_driver :: "nat driver" where
  "failing_driver =
     \<lparr>session_error = (\<lambda>w. None),
      run_error = (\<lambda>w q. case q of MergeDocument u n p l \<Rightarrow> Some (OtherError ''write refused'')
                           | _ \<Rightarrow> None)\<rparr>"

section \<open>Properties of the indicator extractor\<close>

lemma sorted_set_sorted: "sorted (sorted_set xs)"
  by (simp add: sorted_set_def)

lemma sorted_set_distinct: "distinct (sorted_set xs)"
  by (simp add: sorted_set_def)

lemma set_sorted_set: "set (sorted_set xs) = set xs"
  by (simp add: sorted_set_def)

text \<open>
  Claim C5.  For every input text (and whatever the phone library answers), each of the seven
  categories returned by \<open>extract_indicators_by_category\<close> is sorted in lexicographic order
  and free of duplicates.  The result is a function of the text and of the phone library's
  answers alone, so two runs on the same text give the same result.
\<close>

theorem extract_sorted_duplicate_free:
  "sorted (domains (extract_indicators_by_category pm text)) \<and>
   distinct (domains (extract_indicators_by_category pm text)) \<and>
   sorted (urls (extract_indicators_by_category pm text)) \<and>
   distinct (urls (extract_indicators_by_category pm text)) \<and>
   sorted (ips (extract_indicators_by_category pm text)) \<and>
   distinct (ips (extract_indicators_by_category pm text)) \<and>
   sorted (emails (extract_indicators_by_category pm text)) \<and>
   distinct (emails (extract_indicators_by_category pm text)) \<and>
   sorted (phones (extract_indicators_by_category pm text)) \<and>
   distinct (phones (extract_indicators_by_category pm text)) \<and>
   sorted (social_handles (extract_indicators_by_category pm text)) \<and>
   distinct (social_handles (extract_indicators_by_category pm text)) \<and>
   sorted (tracking_ids (extract_indicators_by_category pm text)) \<and>
   distinct (tracking_ids (extract_indicators_by_category pm text))"
  by (simp add: extract_indicators_by_category_def sorted_set_sorted sorted_set_distinct)

subsection \<open>The scenario text\<close>

lemma scenario_emails:
  "emails (extract_indicators_by_category pm scenario_text) = [''alerts@ti-example.com'']"
  by code_simp

lemma scenario_ips:
  "ips (extract_indicators_by_category pm scenario_text) = [''10.0.0.5'']"
  by code_simp

lemma scenario_urls:
  "urls (extract_indicators_by_category pm scenario_text)
     = [''https://bad-domain.test/payload.exe'']"
  by code_simp

lemma scenario_domains:
  "domains (extract_indicators_by_category pm scenario_text)
     = [''bad-domain.test'', ''payload.exe'', ''ti-example.com'']"
  by code_simp

text \<open>
  Claim C1, as stated, fails: on the scenario text the domains are not only
  \<open>bad-domain.test\<close>.  The host of the e-mail address and the file name \<open>payload.exe\<close> both
  have the shape of \<open>domain_pattern\<close>, and \<open>exe\<close> is not among \<open>file_exts\<close>.
\<close>

theorem scenario_domains_counterexample:
  "\<not> (domains (extract_indicators_by_category no_phones scenario_text) = [''bad-domain.test''])
   \<and> ''payload.exe'' \<in> set (domains (extract_indicators_by_category no_phones scenario_text))"
  by (simp add: scenario_domains)

text \<open>
  Claim C1, amended.  On the scenario text the extractor returns exactly the e-mail address,
  the IP address and the URL of the claim, and the three domains \<open>bad-domain.test\<close>,
  \<open>payload.exe\<close> and \<open>ti-example.com\<close>, whatever the phone library answers.
\<close>

theorem scenario_indicators:
  "emails (extract_indicators_by_category pm scenario_text) = [''alerts@ti-example.com''] \<and>
   ips (extract_indicators_by_category pm scenario_text) = [''10.0.0.5''] \<and>
   urls (extract_indicators_by_category pm scenario_text)
     = [''https://bad-domain.test/payload.exe''] \<and>
   domains (extract_indicators_by_category pm scenario_text)
     = [''bad-domain.test'', ''payload.exe'', ''ti-example.com'']"
  by (simp only: scenario_emails scenario_ips scenario_urls scenario_domains simp_thms)

subsection \<open>IP validation\<close>

lemma parse_octet_Inr_iff: "(\<exists>n. parse_octet p = Inr n) \<longleftrightarrow> octet_ok p"
  by (auto simp: parse_octet_def octet_ok_def)

lemma parse_octet_value: "parse_octet p = Inr n \<Longrightarrow> n = int_of_digits p \<and> n \<le> 255"
  by (auto simp: parse_octet_def split: if_splits)

lemma parse_octets_Inr_iff: "(\<exists>ns. parse_octets ps = Inr ns) \<longleftrightarrow> list_all octet_ok ps"
proof (induction ps)
  case Nil
  show ?case by simp
next
  case (Cons p ps)
  show ?case
  proof (cases "parse_octet p")
    case (Inl e)
    then have "\<not> octet_ok p"
      using parse_octet_Inr_iff [of p] by auto
    with Inl show ?thesis by simp
  next
    case (Inr n)
    then have "octet_ok p"
      using parse_octet_Inr_iff [of p] by auto
    with Inr Cons.IH show ?thesis
      by (cases "parse_octets ps") auto
  qed
qed

lemma parse_octets_value:
  "parse_octets ps = Inr ns \<Longrightarrow> ns = map int_of_digits ps \<and> list_all (\<lambda>n. n \<le> 255) ns"
  by (induction ps arbitrary: ns) (auto split: sum.splits dest: parse_octet_value)

lemma ip_address_Inr_iff:
  "(\<exists>ns. ip_address c = Inr ns) \<longleftrightarrow>
     length (split_on CHR ''.'' c) = 4 \<and> list_all octet_ok (split_on CHR ''.'' c)"
  using parse_octets_Inr_iff [of "split_on CHR ''.'' c"]
  by (simp add: ip_address_def Let_def)

lemma ip_address_value:
  "ip_address c = Inr ns \<Longrightarrow>
     ns = map int_of_digits (split_on CHR ''.'' c) \<and> length ns = 4 \<and> list_all (\<lambda>n. n \<le> 255) ns"
  using parse_octets_value [of "split_on CHR ''.'' c" ns]
  by (auto simp: ip_address_def Let_def split: if_splits)

lemma set_accepted_ips:
  "set (accepted_ips ms) = {c \<in> set ms. \<exists>ns. ip_address c = Inr ns}"
proof -
  have "(case ip_address c of Inl e \<Rightarrow> False | Inr ns \<Rightarrow> True) = (\<exists>ns. ip_address c = Inr ns)"
    for c
    by (cases "ip_address c") auto
  then show ?thesis
    by (auto simp: accepted_ips_def)
qed

lemma ips_mixed_text:
  "ips (extract_indicators_by_category pm ''999.1.1.1 8.8.8.8'') = [''8.8.8.8'']"
  by code_simp

lemma findall_ip_mixed_text:
  "findall ip_pattern ''999.1.1.1 8.8.8.8'' = [''999.1.1.1'', ''8.8.8.8'']"
  by code_simp

text \<open>
  Claim C6.  A candidate matched by \<open>ip_pattern\<close> is in the ips category exactly when
  \<open>ip_address\<close> accepts it; \<open>ip_address\<close> accepts exactly four well-formed octets, each with
  a value of at most 255; a rejected candidate is dropped and the ones after it are still
  examined: of \<open>999.1.1.1\<close> and \<open>8.8.8.8\<close> in one text, only the second is returned.
\<close>

theorem ip_accepted_iff_valid:
  "set (ips (extract_indicators_by_category pm text))
     = {c \<in> set (findall ip_pattern text). \<exists>ns. ip_address c = Inr ns}
   \<and> ((\<exists>ns. ip_address c = Inr ns) \<longleftrightarrow>
        length (split_on CHR ''.'' c) = 4 \<and> list_all octet_ok (split_on CHR ''.'' c))
   \<and> (ip_address c = Inr ns \<longrightarrow>
        ns = map int_of_digits (split_on CHR ''.'' c) \<and> length ns = 4
        \<and> list_all (\<lambda>n. n \<le> 255) ns)
   \<and> findall ip_pattern ''999.1.1.1 8.8.8.8'' = [''999.1.1.1'', ''8.8.8.8'']
   \<and> ips (extract_indicators_by_category pm ''999.1.1.1 8.8.8.8'') = [''8.8.8.8'']"
proof -
  have "set (ips (extract_indicators_by_category pm text))
          = {c \<in> set (findall ip_pattern text). \<exists>ns. ip_address c = Inr ns}"
    by (simp add: extract_indicators_by_category_def set_sorted_set set_accepted_ips)
  moreover have "ip_address c = Inr ns \<longrightarrow>
        ns = map int_of_digits (split_on CHR ''.'' c) \<and> length ns = 4
        \<and> list_all (\<lambda>n. n \<le> 255) ns"
    using ip_address_value [of c ns] by blast
  ultimately show ?thesis
    using ip_address_Inr_iff [of c] ips_mixed_text [of pm] findall_ip_mixed_text by blast
qed

theorem ip_accepted_iff_valid_witness:
  "ip_address ''8.8.8.8'' = Inr [8, 8, 8, 8]
   \<and> ''8.8.8.8'' \<in> set (ips (extract_indicators_by_category no_phones ''999.1.1.1 8.8.8.8''))
   \<and> ''999.1.1.1'' \<notin> set (ips (extract_indicators_by_category no_phones ''999.1.1.1 8.8.8.8''))
   \<and> \<not> list_all octet_ok (split_on CHR ''.'' ''999.1.1.1'')
   \<and> list_all octet_ok (split_on CHR ''.'' ''8.8.8.8'')"
proof -
  have a: "ip_address ''8.8.8.8'' = Inr [8, 8, 8, 8]" by code_simp
  have b: "\<not> (\<exists>ns. ip_address ''999.1.1.1'' = Inr ns)"
  proof -
    have "ip_address ''999.1.1.1'' = Inl ValueError" by code_simp
    then show ?thesis by simp
  qed
  have c: "length (split_on CHR ''.'' ''999.1.1.1'') = 4" by code_simp
  show ?thesis
    using a b c
      ip_accepted_iff_valid [of no_phones "''999.1.1.1 8.8.8.8''" "''8.8.8.8''" "[8, 8, 8, 8]"]
      ip_accepted_iff_valid [of no_phones "''999.1.1.1 8.8.8.8''" "''999.1.1.1''" "[]"]
    by simp
qed

subsection \<open>What the matcher can return\<close>

lemma rmatch_Chr:
  "rmatch (Chr p) (c, xs) = (case xs of [] \<Rightarrow> [] | x # xs' \<Rightarrow> if p x then [(Some x, xs')] else [])"
  by simp

lemma rep_Chr_sound:
  "q \<in> set (rep (rmatch (Chr p)) lo n (c, xs)) \<Longrightarrow>
     \<exists>m. xs = m @ snd q \<and> list_all p m \<and> lo \<le> length m"
proof (induction n arbitrary: lo c xs)
  case 0
  then show ?case by (auto split: if_splits)
next
  case (Suc n)
  show ?case
  proof (cases "q = (c, xs) \<and> lo = 0")
    case True
    then show ?thesis by auto
  next
    case False
    with Suc.prems obtain x xs' where xs: "xs = x # xs'" and px: "p x"
      and q: "q \<in> set (rep (rmatch (Chr p)) (lo - 1) n (Some x, xs'))"
      by (cases xs) (auto split: if_splits)
    from Suc.IH [OF q] obtain m where "xs' = m @ snd q" "list_all p m" "lo - 1 \<le> length m"
      by blast
    with xs px have "xs = (x # m) @ snd q \<and> list_all p (x # m) \<and> lo \<le> length (x # m)"
      by auto
    then show ?thesis by blast
  qed
qed

lemma rep_Chr_head:
  "length (takeWhile p xs) \<le> n \<Longrightarrow> lo \<le> length (takeWhile p xs) \<Longrightarrow>
     \<exists>c' rest. rep (rmatch (Chr p)) lo n (c, xs) = (c', dropWhile p xs) # rest"
proof (induction n arbitrary: lo c xs)
  case 0
  then show ?case by (cases xs) (auto split: if_splits)
next
  case (Suc n)
  show ?case
  proof (cases xs)
    case Nil
    with Suc.prems show ?thesis by simp
  next
    case (Cons x xs')
    show ?thesis
    proof (cases "p x")
      case False
      with Cons Suc.prems show ?thesis by simp
    next
      case True
      with Cons Suc.prems have "length (takeWhile p xs') \<le> n" "lo - 1 \<le> length (takeWhile p xs')"
        by auto
      from Suc.IH [OF this] obtain c' rest
        where "rep (rmatch (Chr p)) (lo - 1) n (Some x, xs') = (c', dropWhile p xs') # rest"
        by blast
      with Cons True show ?thesis by simp
    qed
  qed
qed

lemma not_handle_at: "\<not> handle_char CHR ''@''"
  by (simp add: handle_char_def is_word_def is_alnum_def is_alpha_def is_lower_def is_upper_def
      is_digit_def in_range_def)

lemma not_handle_dot: "\<not> handle_char CHR ''.''"
  by (simp add: handle_char_def is_word_def is_alnum_def is_alpha_def is_lower_def is_upper_def
      is_digit_def in_range_def)

lemma not_local_at: "\<not> local_char CHR ''@''"
  by (simp add: local_char_def is_alnum_def is_alpha_def is_lower_def is_upper_def
      is_digit_def in_range_def)

lemma rmatch_social_sound:
  assumes "q \<in> set (rmatch social_pattern (c, xs))"
  shows "\<exists>m. xs = CHR ''@'' # m @ snd q \<and> list_all handle_char m \<and> m \<noteq> []"
proof -
  from assms obtain xs' where xs: "xs = CHR ''@'' # xs'"
    and q: "q \<in> set (rep (rmatch (Chr handle_char)) 1 (1 + length xs') (Some CHR ''@'', xs'))"
    by (cases xs) (auto simp: social_pattern_def lit_def rplus_def split: if_splits)
  from rep_Chr_sound [OF q] obtain m where "xs' = m @ snd q" "list_all handle_char m" "1 \<le> length m"
    by blast
  with xs show ?thesis by (intro exI [of _ m]) auto
qed

lemma rmatch_social_head:
  assumes "handle_char h"
  shows "\<exists>c' rest. rmatch social_pattern (c, CHR ''@'' # h # d)
           = (c', dropWhile handle_char (h # d)) # rest"
proof -
  have "length (takeWhile handle_char (h # d)) \<le> 1 + length (h # d)"
    using length_takeWhile_le [of handle_char "h # d"] by simp
  moreover have "1 \<le> length (takeWhile handle_char (h # d))"
    using assms by simp
  ultimately obtain c' rest where
    "rep (rmatch (Chr handle_char)) 1 (1 + length (h # d)) (Some CHR ''@'', h # d)
       = (c', dropWhile handle_char (h # d)) # rest"
    using rep_Chr_head [of handle_char "h # d" "1 + length (h # d)" 1 "Some CHR ''@''"] by blast
  then show ?thesis
    by (simp add: social_pattern_def lit_def rplus_def)
qed


lemma append_eq_past_stop:
  assumes "pre @ a # d = m @ s" and "list_all P m" and "\<not> P a"
  shows "\<exists>pre'. s = pre' @ a # d \<and> length pre' + length m = length pre"
proof -
  from assms(1) consider u where "pre = m @ u" "u @ a # d = s"
    | u where "pre @ u = m" "a # d = u @ s"
    by (auto simp: append_eq_append_conv2)
  then show ?thesis
  proof cases
    case 1
    then show ?thesis by auto
  next
    case 2
    show ?thesis
    proof (cases u)
      case Nil
      with 2 show ?thesis by auto
    next
      case (Cons b u')
      with 2 have "a \<in> set m" by auto
      with assms(2,3) show ?thesis by (auto simp: list_all_iff)
    qed
  qed
qed

lemma take_match_social:
  "take (length (CHR ''@'' # ys) - length (dropWhile P ys)) (CHR ''@'' # ys)
     = CHR ''@'' # takeWhile P ys"
proof -
  have "length ys = length (takeWhile P ys) + length (dropWhile P ys)"
    by (metis length_append takeWhile_dropWhile_id)
  then have "length (CHR ''@'' # ys) - length (dropWhile P ys) = Suc (length (takeWhile P ys))"
    by simp
  moreover have "take (length (takeWhile P ys)) ys = takeWhile P ys"
    by (rule takeWhile_eq_take [symmetric])
  ultimately show ?thesis
    by simp
qed

lemma scan_social_finds:
  assumes "handle_char h"
  shows "CHR ''@'' # takeWhile handle_char (h # d)
           \<in> set (scan social_pattern c (pre @ CHR ''@'' # h # d))"
proof (induction "length pre" arbitrary: pre c rule: less_induct)
  case less
  show ?case
  proof (cases pre)
    case Nil
    obtain c' rest where r: "rmatch social_pattern (c, CHR ''@'' # h # d)
           = (c', dropWhile handle_char (h # d)) # rest"
      using rmatch_social_head [OF assms] by blast
    have "length (dropWhile handle_char (h # d)) < length (CHR ''@'' # h # d)"
      using length_dropWhile_le [of handle_char "h # d"] by simp
    with r Nil show ?thesis
      using take_match_social [of "h # d" handle_char]
      by (subst scan.simps) (simp del: dropWhile.simps takeWhile.simps)
  next
    case (Cons x pre')
    let ?xs = "pre @ CHR ''@'' # h # d"
    show ?thesis
    proof (cases "rmatch social_pattern (c, ?xs)")
      case Nil
      with Cons less [of pre' "Some x"] show ?thesis
        by (subst scan.simps) simp
    next
      case (Cons q qs)
      then have "q \<in> set (rmatch social_pattern (c, ?xs))" by simp
      from rmatch_social_sound [OF this] obtain m
        where m: "?xs = CHR ''@'' # m @ snd q" "list_all handle_char m" "m \<noteq> []"
        by blast
      with \<open>pre = x # pre'\<close> have "pre' @ CHR ''@'' # h # d = m @ snd q" by simp
      from append_eq_past_stop [OF this m(2) not_handle_at] obtain pre''
        where p: "snd q = pre'' @ CHR ''@'' # h # d" "length pre'' + length m = length pre'"
        by blast
      with \<open>pre = x # pre'\<close> have "length pre'' < length pre" by simp
      from less [OF this, of "fst q"] p(1)
      have "CHR ''@'' # takeWhile handle_char (h # d) \<in> set (scan social_pattern (fst q) (snd q))"
        by simp
      moreover have "length (snd q) < length ?xs"
        using m(1,3) by (metis length_Cons length_append length_greater_0_conv less_add_same_cancel2 less_Suc_eq add.commute)
      ultimately show ?thesis
        using Cons by (subst scan.simps) simp
    qed
  qed
qed

lemma rmatch_Rep_Chr_sound:
  assumes "q \<in> set (rmatch (Rep lo hi (Chr p)) q0)"
  shows "\<exists>m. snd q0 = m @ snd q \<and> list_all p m \<and> lo \<le> length m"
proof -
  obtain c xs where q0: "q0 = (c, xs)" by (cases q0)
  with assms obtain n where "q \<in> set (rep (rmatch (Chr p)) lo n (c, xs))"
    by auto
  from rep_Chr_sound [OF this] q0 show ?thesis by simp
qed

lemma rmatch_lit_sound:
  assumes "q \<in> set (rmatch (lit a) q0)"
  shows "snd q0 = a # snd q"
  using assms by (cases "snd q0") (auto simp: lit_def split: if_splits)

lemma rmatch_Seq_elem:
  "q \<in> set (rmatch (Seq a b) q0) \<longleftrightarrow> (\<exists>q1. q1 \<in> set (rmatch a q0) \<and> q \<in> set (rmatch b q1))"
  by auto

lemma rmatch_email_sound:
  assumes "q \<in> set (rmatch email_pattern q0)"
  shows "\<exists>l h t. snd q0 = l @ CHR ''@'' # h @ CHR ''.'' # t @ snd q
           \<and> list_all local_char l \<and> l \<noteq> [] \<and> list_all host_char h \<and> h \<noteq> []"
proof -
  from assms obtain q1 q2 q3 q4 where
    1: "q1 \<in> set (rmatch (Rep 1 None (Chr local_char)) q0)" and
    2: "q2 \<in> set (rmatch (lit CHR ''@'') q1)" and
    3: "q3 \<in> set (rmatch (Rep 1 None (Chr host_char)) q2)" and
    4: "q4 \<in> set (rmatch (lit CHR ''.'') q3)" and
    5: "q \<in> set (rmatch (Rep 2 None (Chr is_alpha)) q4)"
    unfolding email_pattern_def rplus_def seqs.simps rmatch_Seq_elem
    by blast
  from rmatch_Rep_Chr_sound [OF 1] obtain l
    where l: "snd q0 = l @ snd q1" "list_all local_char l" "1 \<le> length l" by blast
  from rmatch_Rep_Chr_sound [OF 3] obtain h
    where h: "snd q2 = h @ snd q3" "list_all host_char h" "1 \<le> length h" by blast
  from rmatch_Rep_Chr_sound [OF 5] obtain t
    where t: "snd q4 = t @ snd q" by blast
  from l h t rmatch_lit_sound [OF 2] rmatch_lit_sound [OF 4]
  have "snd q0 = l @ CHR ''@'' # h @ CHR ''.'' # t @ snd q
           \<and> list_all local_char l \<and> l \<noteq> [] \<and> list_all host_char h \<and> h \<noteq> []"
    by auto
  then show ?thesis by blast
qed

lemma scan_elem:
  assumes sound: "\<And>c ys q. q \<in> set (rmatch r (c, ys)) \<Longrightarrow> \<exists>w. ys = w @ snd q \<and> w \<noteq> [] \<and> P w"
  shows "m \<in> set (scan r c xs) \<Longrightarrow> \<exists>pre post. xs = pre @ m @ post \<and> P m"
proof (induction "length xs" arbitrary: xs c rule: less_induct)
  case less
  show ?case
  proof (cases "rmatch r (c, xs)")
    case Nil
    with less.prems obtain x xs' where xs: "xs = x # xs'" and m: "m \<in> set (scan r (Some x) xs')"
      by (subst (asm) scan.simps) (auto split: list.splits)
    from less.hyps [OF _ m] xs obtain pre post where "xs' = pre @ m @ post" "P m"
      by auto
    with xs have "xs = (x # pre) @ m @ post \<and> P m" by simp
    then show ?thesis by blast
  next
    case (Cons q qs)
    then have "q \<in> set (rmatch r (c, xs))" by simp
    from sound [OF this] obtain w where w: "xs = w @ snd q" "w \<noteq> []" "P w" by blast
    then have len: "length (snd q) < length xs"
      by (metis length_append length_greater_0_conv less_add_same_cancel2)
    have tk: "take (length xs - length (snd q)) xs = w"
      using w(1) by (metis add_diff_cancel_right' append_eq_conv_conj length_append)
    from less.prems Cons len tk
    have "m = w \<or> m \<in> set (scan r (fst q) (snd q))"
      by (subst (asm) scan.simps) auto
    then show ?thesis
    proof
      assume "m = w"
      with w have "xs = [] @ m @ snd q \<and> P m" by simp
      then show ?thesis by blast
    next
      assume "m \<in> set (scan r (fst q) (snd q))"
      from less.hyps [OF len this] obtain pre post where "snd q = pre @ m @ post" "P m"
        by blast
      with w(1) have "xs = (w @ pre) @ m @ post \<and> P m" by simp
      then show ?thesis by blast
    qed
  qed
qed

lemma findall_email_shape:
  assumes "m \<in> set (findall email_pattern text)"
  shows "\<exists>pre post. text = pre @ m @ post \<and> email_shape m"
proof -
  have sound: "\<exists>w. ys = w @ snd q \<and> w \<noteq> [] \<and> email_shape w"
    if "q \<in> set (rmatch email_pattern (c, ys))" for c ys q
  proof -
    from rmatch_email_sound [OF that] obtain l h t where
      "ys = l @ CHR ''@'' # h @ CHR ''.'' # t @ snd q"
      "list_all local_char l" "l \<noteq> []" "list_all host_char h" "h \<noteq> []"
      by auto
    then have "ys = (l @ CHR ''@'' # h @ CHR ''.'' # t) @ snd q
        \<and> l @ CHR ''@'' # h @ CHR ''.'' # t \<noteq> [] \<and> email_shape (l @ CHR ''@'' # h @ CHR ''.'' # t)"
      unfolding email_shape_def by auto
    then show ?thesis by blast
  qed
  show ?thesis
  proof (rule scan_elem [where r = email_pattern and P = email_shape and c = None])
    fix c ys q
    assume "q \<in> set (rmatch email_pattern (c, ys))"
    then show "\<exists>w. ys = w @ snd q \<and> w \<noteq> [] \<and> email_shape w"
      by (rule sound)
  next
    show "m \<in> set (scan email_pattern None text)"
      using assms by (simp add: findall_def)
  qed
qed

lemma findall_email_parts:
  assumes "m \<in> set (findall email_pattern text)"
  shows "\<exists>pre post l h t. text = pre @ m @ post \<and> m = l @ CHR ''@'' # h @ CHR ''.'' # t
           \<and> CHR ''@'' \<notin> set l \<and> h \<noteq> [] \<and> domain_part m = h @ CHR ''.'' # t"
proof -
  from findall_email_shape [OF assms] obtain pre post l h t where
    tx: "text = pre @ m @ post" and m: "m = l @ CHR ''@'' # h @ CHR ''.'' # t" and
    l: "list_all local_char l" and h: "h \<noteq> []"
    unfolding email_shape_def by blast
  have at: "CHR ''@'' \<notin> set l"
    using l not_local_at by (auto simp: list_all_iff)
  then have "dropWhile (\<lambda>c. c \<noteq> CHR ''@'') m = CHR ''@'' # h @ CHR ''.'' # t"
    unfolding m by (subst dropWhile_append2) auto
  then have "domain_part m = h @ CHR ''.'' # t"
    by (simp add: domain_part_def)
  with tx m at h show ?thesis by blast
qed

lemma email_short_text: "findall email_pattern ''x@ab.io'' = [''x@ab.io'']"
  by code_simp

lemma email_dot_host_emails:
  "emails (extract_indicators_by_category pm ''a@.b.com'') = [''a@.b.com'']"
  by code_simp

lemma email_dot_host_handles:
  "social_handles (extract_indicators_by_category pm ''a@.b.com'') = []"
  by code_simp

text \<open>
  Claim C10, as stated, fails: the text \<open>a@.b.com\<close> contains an e-mail address for the
  extractor, and its social handles are empty, because the host part begins with a dot, which
  the handle pattern does not accept after the at sign.
\<close>

theorem email_without_handle_counterexample:
  "emails (extract_indicators_by_category no_phones ''a@.b.com'') = [''a@.b.com'']
   \<and> social_handles (extract_indicators_by_category no_phones ''a@.b.com'') = []"
  by (simp only: email_dot_host_emails email_dot_host_handles simp_thms)

text \<open>
  Claim C10, amended.  For every text and every match \<open>m\<close> of the e-mail pattern in it, the
  lower-cased match is among the emails, and if the part of \<open>m\<close> after the at sign begins with
  a word character or a hyphen, then the at sign followed by the leading word and hyphen
  characters of that part is among the social handles.
\<close>

theorem email_yields_social_handle:
  assumes "m \<in> set (findall email_pattern text)"
  shows "lower m \<in> set (emails (extract_indicators_by_category pm text))
         \<and> domain_part m \<noteq> []
         \<and> (handle_char (hd (domain_part m)) \<longrightarrow>
               CHR ''@'' # takeWhile handle_char (domain_part m)
                 \<in> set (social_handles (extract_indicators_by_category pm text)))"
proof -
  from findall_email_parts [OF assms] obtain pre post l h t where
    tx: "text = pre @ m @ post" and m: "m = l @ CHR ''@'' # h @ CHR ''.'' # t" and
    h: "h \<noteq> []" and d: "domain_part m = h @ CHR ''.'' # t"
    by blast
  have em: "lower m \<in> set (emails (extract_indicators_by_category pm text))"
    using assms by (simp add: extract_indicators_by_category_def set_sorted_set)
  have soc: "CHR ''@'' # takeWhile handle_char (h @ CHR ''.'' # t)
                  \<in> set (social_handles (extract_indicators_by_category pm text))"
    if hd: "handle_char (hd (h @ CHR ''.'' # t))"
  proof -
    from h obtain h0 h' where h0: "h = h0 # h'" by (cases h) auto
    with hd have "handle_char h0" by simp
    from scan_social_finds [OF this, of "h' @ CHR ''.'' # t @ post" None "pre @ l"]
    have "CHR ''@'' # takeWhile handle_char (h @ CHR ''.'' # t @ post)
            \<in> set (findall social_pattern text)"
      unfolding findall_def tx m h0 by simp
    moreover have "takeWhile handle_char (h @ CHR ''.'' # t @ post)
                     = takeWhile handle_char (h @ CHR ''.'' # t)"
      by (simp add: takeWhile_tail not_handle_dot)
    ultimately show ?thesis
      by (simp add: extract_indicators_by_category_def set_sorted_set)
  qed
  from em soc d show ?thesis
    by simp
qed

theorem email_yields_social_handle_witness:
  "''x@ab.io'' \<in> set (findall email_pattern ''x@ab.io'')
   \<and> ''x@ab.io'' \<in> set (emails (extract_indicators_by_category no_phones ''x@ab.io''))
   \<and> ''@ab'' \<in> set (social_handles (extract_indicators_by_category no_phones ''x@ab.io''))"
proof -
  have m: "''x@ab.io'' \<in> set (findall email_pattern ''x@ab.io'')"
    by (simp add: email_short_text)
  have d: "domain_part ''x@ab.io'' = ''ab.io''"
    by (simp add: domain_part_def)
  have hc: "handle_char CHR ''a''" "handle_char CHR ''b''"
    by (simp_all add: handle_char_def is_word_def is_alnum_def is_alpha_def is_lower_def
        in_range_def)
  have lw: "lower ''x@ab.io'' = ''x@ab.io''"
    by code_simp
  show ?thesis
    using email_yields_social_handle [OF m, of no_phones] m
    by (simp add: d hc not_handle_dot lw)
qed

section \<open>Properties of the stores and of the orchestrator\<close>

subsection \<open>Computations\<close>

lemma io_bind_Inr:
  "io_bind m f w = (Inr y, w') \<longleftrightarrow> (\<exists>x w1. m w = (Inr x, w1) \<and> f x w1 = (Inr y, w'))"
  by (auto simp: io_bind_def split: prod.splits sum.splits)

lemma io_bind_Inl:
  "io_bind m f w = (Inl e, w') \<longleftrightarrow>
     m w = (Inl e, w') \<or> (\<exists>x w1. m w = (Inr x, w1) \<and> f x w1 = (Inl e, w'))"
  by (auto simp: io_bind_def split: prod.splits sum.splits)

lemma io_catch_Inr:
  "io_catch m h w = (Inr y, w') \<longleftrightarrow>
     m w = (Inr y, w') \<or> (\<exists>e w1. m w = (Inl e, w1) \<and> h e w1 = (Inr y, w'))"
  by (auto simp: io_catch_def split: prod.splits sum.splits)

lemma io_catch_Inl:
  "io_catch m h w = (Inl e', w') \<longleftrightarrow> (\<exists>e w1. m w = (Inl e, w1) \<and> h e w1 = (Inl e', w'))"
  by (auto simp: io_catch_def split: prod.splits sum.splits)

lemmas prim_defs = io_return_def io_raise_def io_lift_def print_def uuid4_def fs_def
  execute_def fetchone_def session_def run_def

lemma frameD: "frame f m \<Longrightarrow> m w = (r, w') \<Longrightarrow> f w' = f w"
  by (auto simp: frame_def dest: spec [where x = w])

lemma frame_bind: "frame f m \<Longrightarrow> (\<And>x. frame f (g x)) \<Longrightarrow> frame f (io_bind m g)"
  by (auto simp: frame_def io_bind_def split: prod.splits sum.splits)
     (metis snd_conv)+

lemma frame_catch: "frame f m \<Longrightarrow> (\<And>e. frame f (h e)) \<Longrightarrow> frame f (io_catch m h)"
  by (auto simp: frame_def io_catch_def split: prod.splits sum.splits)
     (metis snd_conv)+

lemma frame_return: "frame f (io_return x)"
  by (simp add: frame_def io_return_def)

lemma frame_raise: "frame f (io_raise e)"
  by (simp add: frame_def io_raise_def)

lemma frame_lift: "frame f (io_lift r)"
  by (simp add: frame_def io_lift_def)

lemma appendsD:
  "appends f P m \<Longrightarrow> m w = (r, w') \<Longrightarrow> \<exists>new. f w' = f w @ new \<and> list_all P new"
  by (auto simp: appends_def dest: spec [where x = w])

lemma appends_frame: "frame f m \<Longrightarrow> appends f P m"
  by (simp add: frame_def appends_def)

lemma appends_bind:
  assumes "appends f P m" and "\<And>x. appends f P (g x)"
  shows "appends f P (io_bind m g)"
  unfolding appends_def
proof
  fix w
  obtain r w1 where m: "m w = (r, w1)" by (cases "m w")
  from appendsD [OF assms(1) m] obtain new1 where n1: "f w1 = f w @ new1" "list_all P new1"
    by blast
  show "\<exists>new. f (snd (io_bind m g w)) = f w @ new \<and> list_all P new"
  proof (cases r)
    case (Inl e)
    with m n1 show ?thesis by (auto simp: io_bind_def)
  next
    case (Inr x)
    obtain r2 w2 where g: "g x w1 = (r2, w2)" by (cases "g x w1")
    from appendsD [OF assms(2) g] obtain new2 where "f w2 = f w1 @ new2" "list_all P new2"
      by blast
    with m n1 Inr g show ?thesis by (auto simp: io_bind_def)
  qed
qed

lemma appends_catch:
  assumes "appends f P m" and "\<And>e. appends f P (h e)"
  shows "appends f P (io_catch m h)"
  unfolding appends_def
proof
  fix w
  obtain r w1 where m: "m w = (r, w1)" by (cases "m w")
  from appendsD [OF assms(1) m] obtain new1 where n1: "f w1 = f w @ new1" "list_all P new1"
    by blast
  show "\<exists>new. f (snd (io_catch m h w)) = f w @ new \<and> list_all P new"
  proof (cases r)
    case (Inr x)
    with m n1 show ?thesis by (auto simp: io_catch_def)
  next
    case (Inl e)
    obtain r2 w2 where g: "h e w1 = (r2, w2)" by (cases "h e w1")
    from appendsD [OF assms(2) g] obtain new2 where "f w2 = f w1 @ new2" "list_all P new2"
      by blast
    with m n1 Inl g show ?thesis by (auto simp: io_catch_def)
  qed
qed

lemma appends_return: "appends f P (io_return x)"
  by (simp add: appends_def io_return_def)

lemma appends_raise: "appends f P (io_raise e)"
  by (simp add: appends_def io_raise_def)

lemma appends_lift: "appends f P (io_lift r)"
  by (simp add: appends_def io_lift_def)

lemma appends_mono: "appends f P m \<Longrightarrow> (\<And>x. P x \<Longrightarrow> Q x) \<Longrightarrow> appends f Q m"
  unfolding appends_def list_all_iff by blast

subsection \<open>\<open>PostgreSQLRepository.insert_document\<close>\<close>

lemma insert_document_result:
  assumes "insert_document env name path lang u w = (Inr i, w')"
  shows "pg_chunks w' = pg_chunks w \<and>
         (case find (\<lambda>r. d_name r = name) (pg_documents w) of
            Some row \<Rightarrow> i = d_uuid row \<and> pg_documents w' = pg_documents w
          | None \<Rightarrow> pg_documents w' = pg_documents w @
                      [\<lparr>d_uuid = i, d_name = name, d_path = path, d_language = lang\<rparr>])"
  using assms
  by (auto simp: insert_document_def io_bind_def prim_defs
           split: option.splits prod.splits sum.splits sql.splits)

lemma find_append_Some: "find P xs = Some x \<Longrightarrow> find P (xs @ ys) = Some x"
  by (induction xs) auto

lemma find_snoc_None: "find P xs = None \<Longrightarrow> P x \<Longrightarrow> find P (xs @ [x]) = Some x"
  by (induction xs) (auto split: if_splits)

text \<open>
  Claim C2.  The document upsert is idempotent and the first write wins.  Take any two calls of
  \<open>insert_document\<close> with the same name that both return, the second in any later state
  whose documents table extends the one the first call left (other documents may have been
  added in between); the paths, languages and proposed identities of the two calls are
  arbitrary.  Then both calls return the same identity, the second call changes neither the
  documents table nor the chunks table (no insert, no update), and the row found under that
  name is still the one found after the first call; if the name was not stored before the
  first call, that row carries the identity, path and language of the first call.
\<close>

theorem insert_document_first_write_wins:
  assumes first: "insert_document env name path1 lang1 u1 w = (Inr id1, w1)"
      and later: "pg_documents w1' = pg_documents w1 @ others"
      and second: "insert_document env name path2 lang2 u2 w1' = (Inr id2, w2)"
  shows "id2 = id1 \<and> pg_documents w2 = pg_documents w1' \<and> pg_chunks w2 = pg_chunks w1' \<and>
         find (\<lambda>r. d_name r = name) (pg_documents w2) =
           find (\<lambda>r. d_name r = name) (pg_documents w1) \<and>
         (find (\<lambda>r. d_name r = name) (pg_documents w) = None \<longrightarrow>
            find (\<lambda>r. d_name r = name) (pg_documents w2) =
              Some \<lparr>d_uuid = id1, d_name = name, d_path = path1, d_language = lang1\<rparr>)"
proof -
  let ?P = "\<lambda>r. d_name r = name"
  let ?row = "\<lparr>d_uuid = id1, d_name = name, d_path = path1, d_language = lang1\<rparr>"
  have "\<exists>row. find ?P (pg_documents w1) = Some row \<and> d_uuid row = id1 \<and>
          (find ?P (pg_documents w) = None \<longrightarrow> row = ?row)"
  proof (cases "find ?P (pg_documents w)")
    case None
    with insert_document_result [OF first]
    have "pg_documents w1 = pg_documents w @ [?row]" by simp
    with None show ?thesis by (simp add: find_snoc_None)
  next
    case (Some row)
    with insert_document_result [OF first] show ?thesis by simp
  qed
  then obtain row where row: "find ?P (pg_documents w1) = Some row" "d_uuid row = id1"
    "find ?P (pg_documents w) = None \<longrightarrow> row = ?row" by (elim exE conjE)
  from row(1) later have found: "find ?P (pg_documents w1') = Some row"
    by (simp add: find_append_Some)
  with insert_document_result [OF second]
  have "id2 = d_uuid row" "pg_documents w2 = pg_documents w1'" "pg_chunks w2 = pg_chunks w1'"
    by simp_all
  with row found show ?thesis by simp
qed


lemma example_first_call:
  "fst (insert_document example_env ''a'' ''pdfs/a.pdf'' ''en'' None empty_world) = Inr ''uuid4-0''"
  by code_simp

lemma example_second_call:
  "fst (insert_document example_env ''a'' ''moved/a.pdf'' ''fr'' None
         (snd (insert_document example_env ''a'' ''pdfs/a.pdf'' ''en'' None empty_world)))
   = Inr ''uuid4-0''"
  by code_simp

theorem insert_document_first_write_wins_witness:
  "fst (insert_document example_env ''a'' ''moved/a.pdf'' ''fr'' None
         (snd (insert_document example_env ''a'' ''pdfs/a.pdf'' ''en'' None empty_world)))
   = Inr ''uuid4-0'' \<and>
   find (\<lambda>r. d_name r = ''a'')
     (pg_documents (snd (insert_document example_env ''a'' ''moved/a.pdf'' ''fr'' None
         (snd (insert_document example_env ''a'' ''pdfs/a.pdf'' ''en'' None empty_world)))))
   = Some \<lparr>d_uuid = ''uuid4-0'', d_name = ''a'', d_path = ''pdfs/a.pdf'', d_language = ''en''\<rparr>"
proof -
  let ?r1 = "insert_document example_env ''a'' ''pdfs/a.pdf'' ''en'' None empty_world"
  let ?r2 = "insert_document example_env ''a'' ''moved/a.pdf'' ''fr'' None (snd ?r1)"
  have 1: "?r1 = (Inr ''uuid4-0'', snd ?r1)"
    using example_first_call by (simp add: prod_eq_iff)
  have 2: "?r2 = (Inr ''uuid4-0'', snd ?r2)"
    using example_second_call by (simp add: prod_eq_iff)
  have 0: "find (\<lambda>r. d_name r = ''a'') (pg_documents empty_world) = None"
    by (simp add: empty_world_def)
  have 3: "pg_documents (snd ?r1) = pg_documents (snd ?r1) @ []" by simp
  note c = insert_document_first_write_wins [OF 1 3 2]
  from c [THEN conjunct2, THEN conjunct2, THEN conjunct2, THEN conjunct2] 0
  have "find (\<lambda>r. d_name r = ''a'') (pg_documents (snd ?r2)) =
          Some \<lparr>d_uuid = ''uuid4-0'', d_name = ''a'', d_path = ''pdfs/a.pdf'', d_language = ''en''\<rparr>"
    by (rule mp)
  with example_second_call show ?thesis by (rule conjI)
qed

subsection \<open>\<open>Neo4jRepository.insert_indicators\<close>\<close>

lemma frame_graph_prims:
  "frame neo4j_graph (print m)" "frame neo4j_graph (uuid4 env)" "frame neo4j_graph (session drv)"
  "frame neo4j_graph (fs env op)" "frame neo4j_graph (execute env q)"
  "frame neo4j_graph (fetchone name)"
  by (simp_all add: frame_def prim_defs split: option.splits fs_op.splits sql.splits)

lemma appends_run: "P q \<Longrightarrow> appends neo4j_graph P (run drv q)"
  by (simp add: appends_def run_def split: option.splits)

lemmas appends_graph_prims = frame_graph_prims [THEN appends_frame]

lemma insert_values_graph:
  "appends neo4j_graph
     (\<lambda>s. is_MergeMention s \<and> page_of s = show_nat page_num \<and>
          ind_uuid_of s = uuid5 env NAMESPACE_DNS (cat_of s @ '':'' @ val_of s))
     (insert_values env drv doc_uuid page_num category values)"
  by (induction "values")
     (auto intro!: appends_bind appends_return appends_run appends_graph_prims)

lemma insert_categories_graph:
  "appends neo4j_graph
     (\<lambda>s. is_MergeMention s \<and> page_of s = show_nat page_num \<and>
          ind_uuid_of s = uuid5 env NAMESPACE_DNS (cat_of s @ '':'' @ val_of s))
     (insert_categories env drv doc_uuid page_num cats)"
proof (induction cats)
  case Nil
  show ?case by (simp add: appends_return)
next
  case (Cons c cats)
  obtain category "values" where c: "c = (category, values)" by (cases c)
  show ?case
    unfolding c insert_categories.simps
    by (intro appends_bind insert_values_graph Cons.IH)
qed

lemma insert_pages_graph:
  "appends neo4j_graph
     (\<lambda>s. is_MergeMention s \<and> page_of s \<in> (\<lambda>p. show_nat (fst p)) ` set by_page \<and>
          ind_uuid_of s = uuid5 env NAMESPACE_DNS (cat_of s @ '':'' @ val_of s))
     (insert_pages env drv doc_uuid by_page)"
proof (induction by_page)
  case Nil
  show ?case by (simp add: appends_return)
next
  case (Cons p by_page)
  obtain n ind where p: "p = (n, ind)" by (cases p)
  show ?case
    unfolding p insert_pages.simps
    by (intro appends_bind appends_mono [OF insert_categories_graph]
          appends_mono [OF Cons.IH]) auto
qed

lemma insert_indicators_graph:
  "appends neo4j_graph
     (\<lambda>s. is_MergeMention s \<and> page_of s \<in> (\<lambda>p. show_nat (fst p)) ` set by_page \<and>
          ind_uuid_of s = uuid5 env NAMESPACE_DNS (cat_of s @ '':'' @ val_of s))
     (insert_indicators env drv doc_uuid by_page)"
  unfolding insert_indicators_def
  by (intro appends_catch appends_bind appends_raise appends_graph_prims insert_pages_graph)

lemma appends_dropD:
  assumes "appends f P m" and "m w = (r, w')" and "s \<in> set (drop (length (f w)) (f w'))"
  shows "P s"
proof -
  from appendsD [OF assms(1,2)] obtain new where "f w' = f w @ new" "list_all P new" by blast
  with assms(3) show ?thesis by (simp add: list_all_iff)
qed

text \<open>
  Claim C3.  The identity of an indicator is a function of its category and value alone.  Take
  two runs of \<open>insert_indicators\<close>, in different states, for different documents and pages,
  with different drivers and different streams of random identities, sharing only the
  name-based \<open>uuid5\<close>.  Two statements sent by these runs for the same category and value
  carry the same indicator identity, namely \<open>uuid5\<close> of the DNS namespace and the text
  \<open>category:value\<close>; nothing else enters it.
\<close>

theorem indicator_identity_deterministic:
  assumes "insert_indicators env1 drv1 doc1 by_page1 w1 = (r1, w1')"
      and "insert_indicators env2 drv2 doc2 by_page2 w2 = (r2, w2')"
      and "uuid5 env1 = uuid5 env2"
      and "s1 \<in> set (drop (length (neo4j_graph w1)) (neo4j_graph w1'))"
      and "s2 \<in> set (drop (length (neo4j_graph w2)) (neo4j_graph w2'))"
      and "cat_of s1 = cat_of s2" and "val_of s1 = val_of s2"
  shows "ind_uuid_of s1 = ind_uuid_of s2 \<and>
         ind_uuid_of s1 = uuid5 env1 NAMESPACE_DNS (cat_of s1 @ '':'' @ val_of s1)"
proof -
  from appends_dropD [OF insert_indicators_graph assms(1) assms(4)]
  have 1: "ind_uuid_of s1 = uuid5 env1 NAMESPACE_DNS (cat_of s1 @ '':'' @ val_of s1)" by simp
  from appends_dropD [OF insert_indicators_graph assms(2) assms(5)]
  have 2: "ind_uuid_of s2 = uuid5 env2 NAMESPACE_DNS (cat_of s2 @ '':'' @ val_of s2)" by simp
  from 1 2 assms(3,6,7) show ?thesis by simp
qed

lemma example_run_one:
  "MergeMention ''uuid5-social_handles:@ab'' ''@ab'' ''social_handles'' ''doc-1'' ''1'' ''uuid4-0''
   \<in> set (drop (length (neo4j_graph empty_world))
        (neo4j_graph (snd (insert_indicators example_env reliable_driver ''doc-1''
           [(1, extract_indicators_by_category no_phones ''@ab'')] empty_world))))"
  by code_simp

lemma example_run_two:
  "MergeMention ''uuid5-social_handles:@ab'' ''@ab'' ''social_handles'' ''doc-2'' ''7'' ''other-5''
   \<in> set (drop (length (neo4j_graph (empty_world\<lparr>neo4j_graph := [ReturnOne], uuid4_count := 5\<rparr>)))
        (neo4j_graph (snd (insert_indicators
           (example_env\<lparr>uuid4_at := \<lambda>n. ''other-'' @ show_nat n\<rparr>) failing_driver ''doc-2''
           [(7, extract_indicators_by_category no_phones ''@ab @cd'')]
           (empty_world\<lparr>neo4j_graph := [ReturnOne], uuid4_count := 5\<rparr>)))))"
  by code_simp

theorem indicator_identity_deterministic_witness:
  "ind_uuid_of (MergeMention ''uuid5-social_handles:@ab'' ''@ab'' ''social_handles'' ''doc-1'' ''1''
      ''uuid4-0'')
   = ind_uuid_of (MergeMention ''uuid5-social_handles:@ab'' ''@ab'' ''social_handles'' ''doc-2''
      ''7'' ''other-5'') \<and>
   ind_uuid_of (MergeMention ''uuid5-social_handles:@ab'' ''@ab'' ''social_handles'' ''doc-1'' ''1''
      ''uuid4-0'')
   = uuid5 example_env NAMESPACE_DNS
       (cat_of (MergeMention ''uuid5-social_handles:@ab'' ''@ab'' ''social_handles'' ''doc-1'' ''1''
          ''uuid4-0'') @ '':'' @
        val_of (MergeMention ''uuid5-social_handles:@ab'' ''@ab'' ''social_handles'' ''doc-1'' ''1''
          ''uuid4-0''))"
proof -
  have u: "uuid5 example_env = uuid5 (example_env\<lparr>uuid4_at := \<lambda>n. ''other-'' @ show_nat n\<rparr>)"
    by simp
  show ?thesis
    by (rule indicator_identity_deterministic
          [OF surjective_pairing surjective_pairing u example_run_one example_run_two]) simp_all
qed

end
